theory Spec2Isabelle
  imports Main
begin

section \<open>Channel enforcement bot: data model\<close>

text \<open>
  A shallow embedding of \<^verbatim>\<open>ChannelEnforcementBot\<close> of \<^verbatim>\<open>main.py\<close>.
  The three dictionaries of the object are the state; every handler takes the state and
  returns the new one together with the calls it made on the transport, in order.
  What the outside world answers (the clock, the membership lookup, whether a send or a
  delete raises) is an explicit argument of the handler.
\<close>

type_synonym user_id = int

text \<open>
  A \<^verbatim>\<open>datetime\<close> of the fixed zone \<^verbatim>\<open>TZ\<close>: microseconds on that wall clock
  (the resolution of Python's \<^verbatim>\<open>datetime\<close>). A \<^verbatim>\<open>timedelta\<close> is a number of
  microseconds as well.
\<close>

type_synonym datetime = int
type_synonym timedelta = int

definition timedelta_seconds :: "int \<Rightarrow> timedelta" where
  "timedelta_seconds n = n * 1000000"

definition timedelta_minutes :: "int \<Rightarrow> timedelta" where
  "timedelta_minutes n = n * 60 * 1000000"

definition CHANNEL_USERNAME :: string where
  "CHANNEL_USERNAME = ''@raport_smenarr''"

definition SPAM_MAX_MSG :: int where
  "SPAM_MAX_MSG = 5"

definition SPAM_WINDOW_SEC :: int where
  "SPAM_WINDOW_SEC = 10"

definition WARNING_AUTO_DELETE_SEC :: int where
  "WARNING_AUTO_DELETE_SEC = 60"

text \<open>
  The exceptions a transport call can raise. \<^verbatim>\<open>BadRequest\<close> and \<^verbatim>\<open>Forbidden\<close>
  are the two classes \<^verbatim>\<open>main.py\<close> imports from \<^verbatim>\<open>telegram.error\<close>;
  \<^verbatim>\<open>TimedOut\<close> and \<^verbatim>\<open>OtherException\<close> stand for every exception that is an
  instance of neither. \<^verbatim>\<open>AttributeError\<close> is what Python raises when a method is
  called on \<^verbatim>\<open>None\<close>. All five are instances of \<^verbatim>\<open>Exception\<close>.
\<close>

datatype exn = BadRequest | Forbidden | TimedOut | OtherException | AttributeError

record user =
  user_id :: user_id
  first_name :: "string option"
  username :: "string option"

text \<open>
  An update as the handlers read it: whether \<^verbatim>\<open>update.message\<close> is there, the
  sender and the identifier of the chat. The handlers are registered for messages and
  commands in groups, where sender and chat are present.
\<close>

record update =
  has_message :: bool
  effective_user :: user
  effective_chat_id :: int

text \<open>The state of the object: the three dictionaries set up by \<^verbatim>\<open>__init__\<close>.\<close>

record bot =
  msg_times :: "user_id \<rightharpoonup> datetime list"
  warnings :: "user_id \<rightharpoonup> int"
  last_reminder :: "user_id \<rightharpoonup> datetime"

definition init_bot :: bot where
  "init_bot = \<lparr>msg_times = Map.empty, warnings = Map.empty, last_reminder = Map.empty\<rparr>"

text \<open>
  The texts the bot sends, by the values interpolated into them: the spam warning is the
  f-string over \<^verbatim>\<open>user_name\<close> and \<^verbatim>\<open>count\<close>, the join reminder the f-string over
  \<^verbatim>\<open>user_name\<close>; the two replies of \<^verbatim>\<open>/resetwarnings\<close> are constant texts.
\<close>

datatype notice =
    SpamWarningText string int
  | JoinReminderText string
  | AdminsOnlyText
  | WarningsClearedText

text \<open>The calls a handler makes on the transport, in the order it makes them.\<close>

datatype action =
    DeleteMessage
  | GetChatMember string user_id
  | GetChatMemberOfChat int user_id
  | SendMessage int notice
  | ReplyText notice
  | Sleep int
  | DeleteNotice

text \<open>
  What the world answers during one run of \<^verbatim>\<open>on_group_message\<close>:
  the three readings of \<^verbatim>\<open>datetime.now(tz=TZ)\<close> (at the anti-spam step, at the
  throttle test, and when the reminder time is stored), the outcome of
  \<^verbatim>\<open>get_chat_member\<close> (\<open>Inl\<close> the exception raised, \<open>Inr\<close> the status),
  and for each other call the exception it raises, if any.
\<close>

record env =
  bot_id :: user_id
  clock_spam :: datetime
  clock_check :: datetime
  clock_mark :: datetime
  member_lookup :: "exn + string"
  message_delete :: "exn option"
  send_message :: "exn option"
  notice_delete :: "exn option"

text \<open>The result of a handler: the state it leaves, its calls, and the exception it
  raises instead of returning, if any.\<close>

record result =
  state :: bot
  trace :: "action list"
  raised :: "exn option"

section \<open>Python helpers\<close>

text \<open>\<^verbatim>\<open>str(n)\<close> of an integer: decimal digits, with a minus sign below zero.\<close>

definition digit_char :: "nat \<Rightarrow> char" where
  "digit_char d = char_of (48 + d)"

fun str_nat :: "nat \<Rightarrow> string" where
  "str_nat n = (if n < 10 then [digit_char n] else str_nat (n div 10) @ [digit_char (n mod 10)])"

definition str_int :: "int \<Rightarrow> string" where
  "str_int i = (if i < 0 then CHR ''-'' # str_nat (nat (- i)) else str_nat (nat i))"

text \<open>Truth value of an optional string: \<^verbatim>\<open>None\<close> and the empty string are false.\<close>

fun truthy :: "string option \<Rightarrow> bool" where
  "truthy None = False"
| "truthy (Some s) = (s \<noteq> [])"

text \<open>\<^verbatim>\<open>d[k]\<close> on a \<^verbatim>\<open>defaultdict\<close>: the stored value, or the default.\<close>

definition defaultdict_get :: "('k \<rightharpoonup> 'v) \<Rightarrow> 'v \<Rightarrow> 'k \<Rightarrow> 'v" where
  "defaultdict_get d dflt k = (case d k of None \<Rightarrow> dflt | Some v \<Rightarrow> v)"

text \<open>The loop \<^verbatim>\<open>while dq and dq[0] < cutoff: dq.popleft()\<close>.\<close>

fun popleft_while :: "datetime \<Rightarrow> datetime list \<Rightarrow> datetime list" where
  "popleft_while cutoff [] = []"
| "popleft_while cutoff (t # dq) = (if t < cutoff then popleft_while cutoff dq else t # dq)"

section \<open>The handlers\<close>

text \<open>
  \<^verbatim>\<open>is_user_in_channel\<close>: the status is looked up and tested against the four
  accepted ones; \<^verbatim>\<open>except (BadRequest, Forbidden)\<close> turns these two into
  \<^verbatim>\<open>False\<close>; any other exception leaves the function.
\<close>

definition is_user_in_channel :: "user_id \<Rightarrow> env \<Rightarrow> exn + bool" where
  "is_user_in_channel uid e =
     (case member_lookup e of
        Inr status \<Rightarrow> Inr (status \<in> set [''member'', ''administrator'', ''creator'', ''owner''])
      | Inl BadRequest \<Rightarrow> Inr False
      | Inl Forbidden \<Rightarrow> Inr False
      | Inl x \<Rightarrow> Inl x)"

text \<open>
  \<^verbatim>\<open>send_join_reminder\<close> and \<^verbatim>\<open>send_spam_warning\<close> have the same shape: the
  message is sent; if that raises, the error is logged and the function returns;
  otherwise it sleeps \<^verbatim>\<open>WARNING_AUTO_DELETE_SEC\<close> and deletes the notice, ignoring
  a failure of the deletion. Neither function raises, and neither touches the state.
\<close>

definition send_join_reminder :: "int \<Rightarrow> string \<Rightarrow> user_id \<Rightarrow> env \<Rightarrow> action list" where
  "send_join_reminder chat_id name uid e =
     (case send_message e of
        Some x \<Rightarrow> [SendMessage chat_id (JoinReminderText name)]
      | None \<Rightarrow>
          [SendMessage chat_id (JoinReminderText name), Sleep WARNING_AUTO_DELETE_SEC,
           DeleteNotice])"

text \<open>\<^verbatim>\<open>user_name = user.first_name or user.username or str(user.id)\<close>.\<close>

definition user_name :: "user \<Rightarrow> string" where
  "user_name u =
     (if truthy (first_name u) then the (first_name u)
      else if truthy (username u) then the (username u)
      else str_int (user_id u))"

definition send_spam_warning :: "int \<Rightarrow> user \<Rightarrow> int \<Rightarrow> env \<Rightarrow> action list" where
  "send_spam_warning chat_id u count e =
     (case send_message e of
        Some x \<Rightarrow> [SendMessage chat_id (SpamWarningText (user_name u) count)]
      | None \<Rightarrow>
          [SendMessage chat_id (SpamWarningText (user_name u) count),
           Sleep WARNING_AUTO_DELETE_SEC, DeleteNotice])"

text \<open>\<^verbatim>\<open>display_name\<close>: the username behind an at sign if there is one, else
  \<^verbatim>\<open>user.first_name or str(user.id)\<close>.\<close>

definition display_name :: "user \<Rightarrow> string" where
  "display_name u =
     (if truthy (username u) then CHR ''@'' # the (username u)
      else if truthy (first_name u) then the (first_name u)
      else str_int (user_id u))"

text \<open>
  \<^verbatim>\<open>on_group_message\<close>, branch by branch as in the source: no message; the bot's
  own message; the anti-spam step (append, trim, count); the force-join check.
  \<^verbatim>\<open>update.message.delete()\<close> sits in \<^verbatim>\<open>try ... except Exception: pass\<close>, so its
  outcome changes nothing.
\<close>

definition on_group_message :: "bot \<Rightarrow> update \<Rightarrow> env \<Rightarrow> result" where
  "on_group_message self upd e =
     (if \<not> has_message upd then \<lparr>state = self, trace = [], raised = None\<rparr>
      else
        let u = effective_user upd;
            chat_id = effective_chat_id upd
        in
        if user_id u = bot_id e then \<lparr>state = self, trace = [], raised = None\<rparr>
        else
          let now = clock_spam e;
              cutoff = now - timedelta_seconds SPAM_WINDOW_SEC;
              dq = popleft_while cutoff (defaultdict_get (msg_times self) [] (user_id u) @ [now]);
              s1 = self\<lparr>msg_times := (msg_times self)(user_id u \<mapsto> dq)\<rparr>
          in
          if int (length dq) > SPAM_MAX_MSG then
            let count = defaultdict_get (warnings s1) 0 (user_id u) + 1;
                s2 = s1\<lparr>warnings := (warnings s1)(user_id u \<mapsto> count)\<rparr>
            in \<lparr>state = s2,
                trace = DeleteMessage # send_spam_warning chat_id u count e,
                raised = None\<rparr>
          else
            (case is_user_in_channel (user_id u) e of
               Inl x \<Rightarrow>
                 \<lparr>state = s1, trace = [GetChatMember CHANNEL_USERNAME (user_id u)],
                  raised = Some x\<rparr>
             | Inr in_channel \<Rightarrow>
                 if \<not> in_channel then
                   let last = last_reminder s1 (user_id u) in
                   if last = None \<or> clock_check e - the last > timedelta_minutes 2 then
                     \<lparr>state = s1\<lparr>last_reminder :=
                                   (last_reminder s1)(user_id u \<mapsto> clock_mark e)\<rparr>,
                      trace = [GetChatMember CHANNEL_USERNAME (user_id u), DeleteMessage]
                              @ send_join_reminder chat_id (display_name u) (user_id u) e,
                      raised = None\<rparr>
                   else
                     \<lparr>state = s1,
                      trace = [GetChatMember CHANNEL_USERNAME (user_id u), DeleteMessage],
                      raised = None\<rparr>
                 else
                   \<lparr>state = s1, trace = [GetChatMember CHANNEL_USERNAME (user_id u)],
                    raised = None\<rparr>))"

text \<open>
  What the world answers during one run of \<^verbatim>\<open>cmd_reset_warnings\<close>: the lookup of
  the caller in the chat of the command, and the outcome of each of the two replies.
\<close>

record cmd_env =
  caller_lookup :: "exn + string"
  reject_reply :: "exn option"
  confirm_reply :: "exn option"

text \<open>
  \<^verbatim>\<open>update.message.reply_text(text)\<close>: with a message, the reply is sent and raises
  what the world answers; without one (the command arrived as an edited message, so
  \<^verbatim>\<open>update.message\<close> is \<^verbatim>\<open>None\<close>) no call is made and \<^verbatim>\<open>AttributeError\<close> is raised.
\<close>

definition reply_text :: "update \<Rightarrow> notice \<Rightarrow> exn option \<Rightarrow> action list \<times> exn option" where
  "reply_text upd text answer =
     (if has_message upd then ([ReplyText text], answer) else ([], Some AttributeError))"

text \<open>
  \<^verbatim>\<open>cmd_reset_warnings\<close>. The lookup and the rejecting reply are both inside
  \<^verbatim>\<open>try ... except Exception: pass\<close>; after the \<^verbatim>\<open>pass\<close> the function goes on
  to \<^verbatim>\<open>self.warnings.clear()\<close> and the confirming reply, which is outside the
  \<^verbatim>\<open>try\<close>, so what that reply raises leaves the function.
\<close>

definition clear_and_confirm :: "bot \<Rightarrow> update \<Rightarrow> action list \<Rightarrow> cmd_env \<Rightarrow> result" where
  "clear_and_confirm self upd calls e =
     (case reply_text upd WarningsClearedText (confirm_reply e) of
        (reply, x) \<Rightarrow>
          \<lparr>state = self\<lparr>warnings := Map.empty\<rparr>, trace = calls @ reply, raised = x\<rparr>)"

definition cmd_reset_warnings :: "bot \<Rightarrow> update \<Rightarrow> cmd_env \<Rightarrow> result" where
  "cmd_reset_warnings self upd e =
     (let lookup = GetChatMemberOfChat (effective_chat_id upd) (user_id (effective_user upd)) in
      case caller_lookup e of
        Inl x \<Rightarrow> clear_and_confirm self upd [lookup] e
      | Inr status \<Rightarrow>
          if status \<notin> set [''administrator'', ''creator''] then
            (case reply_text upd AdminsOnlyText (reject_reply e) of
               (reply, None) \<Rightarrow> \<lparr>state = self, trace = lookup # reply, raised = None\<rparr>
             | (reply, Some x) \<Rightarrow> clear_and_confirm self upd (lookup # reply) e)
          else clear_and_confirm self upd [lookup] e)"

text \<open>\<^verbatim>\<open>reset_warnings_daily\<close>: the three dictionaries are cleared, with no call
  on the transport in between.\<close>

definition reset_warnings_daily :: "bot \<Rightarrow> bot" where
  "reset_warnings_daily self =
     self\<lparr>warnings := Map.empty, msg_times := Map.empty, last_reminder := Map.empty\<rparr>"

section \<open>Reading a state and a trace\<close>

text \<open>A user's window of timestamps and warning count, as a read of the
  \<^verbatim>\<open>defaultdict\<close> would give them (an absent key reads as the default).\<close>

definition window_of :: "bot \<Rightarrow> user_id \<Rightarrow> datetime list" where
  "window_of s uid = defaultdict_get (msg_times s) [] uid"

definition warning_count :: "bot \<Rightarrow> user_id \<Rightarrow> int" where
  "warning_count s uid = defaultdict_get (warnings s) 0 uid"

fun is_spam_warning :: "action \<Rightarrow> bool" where
  "is_spam_warning (SendMessage c (SpamWarningText n k)) = True"
| "is_spam_warning a = False"

fun is_join_reminder :: "action \<Rightarrow> bool" where
  "is_join_reminder (SendMessage c (JoinReminderText n)) = True"
| "is_join_reminder a = False"

fun is_membership_lookup :: "action \<Rightarrow> bool" where
  "is_membership_lookup (GetChatMember c u) = True"
| "is_membership_lookup a = False"

text \<open>A run classified its message as spam when it sent the spam warning; it sent a
  reminder when it sent the join reminder; it checked membership when it asked the
  channel for the sender.\<close>

definition classified_spam :: "result \<Rightarrow> bool" where
  "classified_spam r = list_ex is_spam_warning (trace r)"

definition reminder_sent :: "result \<Rightarrow> bool" where
  "reminder_sent r = list_ex is_join_reminder (trace r)"

definition membership_checked :: "result \<Rightarrow> bool" where
  "membership_checked r = list_ex is_membership_lookup (trace r)"

subsection \<open>A concrete group\<close>

definition alice :: user where
  "alice = \<lparr>user_id = 7, first_name = Some ''Alice'', username = None\<rparr>"

definition message_from :: "user \<Rightarrow> update" where
  "message_from u = \<lparr>has_message = True, effective_user = u, effective_chat_id = - 100\<rparr>"

text \<open>The world at time \<open>t\<close> (in seconds) with a given answer of the membership lookup:
  every call succeeds, and the clock has moved on by the sleep when the reminder time
  is stored.\<close>

definition world_at :: "int \<Rightarrow> exn + string \<Rightarrow> env" where
  "world_at t m =
     \<lparr>bot_id = 1, clock_spam = timedelta_seconds t, clock_check = timedelta_seconds t,
      clock_mark = timedelta_seconds (t + WARNING_AUTO_DELETE_SEC), member_lookup = m,
      message_delete = None, send_message = None, notice_delete = None\<rparr>"

text \<open>The dispatcher hands one update at a time to the handler, and a run starts in the
  state the run before it left (also when that run raised).\<close>

fun state_after :: "bot \<Rightarrow> (update \<times> env) list \<Rightarrow> bot" where
  "state_after s [] = s"
| "state_after s (ue # rest) = state_after (state (on_group_message s (fst ue) (snd ue))) rest"

definition the_bot :: user where
  "the_bot = \<lparr>user_id = 1, first_name = Some ''Guard'', username = Some ''guard_bot''\<rparr>"

definition flagged_bot :: bot where
  "flagged_bot =
     \<lparr>msg_times = [7 \<mapsto> [0, 1000000, 2000000, 3000000, 4000000, 5000000]],
      warnings = [7 \<mapsto> 3],
      last_reminder = [7 \<mapsto> 0]\<rparr>"

definition five_messages :: "(update \<times> env) list" where
  "five_messages =
     [(message_from alice, world_at 0 (Inr ''member'')),
      (message_from alice, world_at 1 (Inr ''member'')),
      (message_from alice, world_at 2 (Inr ''member'')),
      (message_from alice, world_at 3 (Inr ''member'')),
      (message_from alice, world_at 4 (Inr ''member''))]"

definition bob :: user where
  "bob = \<lparr>user_id = 8, first_name = Some ''Bob'', username = Some ''bob''\<rparr>"

text \<open>The five messages above, and then one of a second member.\<close>

definition group_messages :: "(update \<times> env) list" where
  "group_messages = five_messages @ [(message_from bob, world_at 4 (Inr ''member''))]"

text \<open>The same world, but sending a message raises: the sender of a notice then
  returns at once, without the sleep.\<close>

definition send_fails_at :: "int \<Rightarrow> exn + string \<Rightarrow> env" where
  "send_fails_at t m = (world_at t m)\<lparr>send_message := Some TimedOut\<rparr>"

section \<open>Lemmas about the loop and the handler\<close>

lemmas run_defs =
  on_group_message_def Let_def is_user_in_channel_def send_spam_warning_def
  send_join_reminder_def user_name_def display_name_def
  defaultdict_get_def timedelta_seconds_def timedelta_minutes_def SPAM_WINDOW_SEC_def
  SPAM_MAX_MSG_def WARNING_AUTO_DELETE_SEC_def CHANNEL_USERNAME_def

lemmas group_defs =
  alice_def bob_def the_bot_def message_from_def world_at_def send_fails_at_def init_bot_def
  flagged_bot_def

lemmas read_defs =
  window_of_def warning_count_def classified_spam_def reminder_sent_def
  membership_checked_def

subsection \<open>The trimming loop\<close>

lemma popleft_while_dropWhile: "popleft_while c xs = dropWhile (\<lambda>t. t < c) xs"
  by (induction xs) auto

lemma popleft_while_length_filter:
  "length (filter (\<lambda>t. c \<le> t) xs) \<le> length (popleft_while c xs)"
proof (induction xs)
  case Nil
  show ?case by simp
next
  case (Cons t xs)
  show ?case
  proof (cases "t < c")
    case True
    with Cons show ?thesis by simp
  next
    case False
    have "length (filter (\<lambda>t. c \<le> t) xs) \<le> length xs" by (rule length_filter_le)
    with False show ?thesis by simp
  qed
qed

lemma popleft_while_all_stale:
  "list_all (\<lambda>t. t < c) xs \<Longrightarrow> c \<le> now \<Longrightarrow> popleft_while c (xs @ [now]) = [now]"
  by (induction xs) auto

lemma popleft_while_keeps:
  "list_all (\<lambda>t. c \<le> t) xs \<Longrightarrow> popleft_while c xs = xs"
  by (cases xs) auto

lemma popleft_while_sorted:
  "sorted xs \<Longrightarrow> sorted (popleft_while c xs) \<and> list_all (\<lambda>t. c \<le> t) (popleft_while c xs)"
proof (induction xs)
  case Nil
  show ?case by simp
next
  case (Cons t xs)
  show ?case
  proof (cases "t < c")
    case True
    with Cons show ?thesis by simp
  next
    case False
    with Cons.prems have "\<forall>x\<in>set xs. c \<le> x" by auto
    with False Cons.prems show ?thesis by (simp add: list_all_iff)
  qed
qed

lemma popleft_while_last:
  "c \<le> now \<Longrightarrow> popleft_while c (xs @ [now]) \<noteq> [] \<and> last (popleft_while c (xs @ [now])) = now"
  by (induction xs) auto

lemma cutoff_le_now: "now - timedelta_seconds SPAM_WINDOW_SEC \<le> now"
  by (simp add: timedelta_seconds_def SPAM_WINDOW_SEC_def)

lemma window_span_nonneg: "0 \<le> timedelta_seconds SPAM_WINDOW_SEC"
  by (simp add: timedelta_seconds_def SPAM_WINDOW_SEC_def)

lemma within_span_not_stale:
  "list_all (\<lambda>t. hi - d \<le> t \<and> t \<le> hi) xs \<Longrightarrow> now \<le> hi \<Longrightarrow> 0 \<le> d \<Longrightarrow>
     list_all (\<lambda>t. now - d \<le> t) (xs @ [now])"
  for d :: int
  by (induction xs) auto

subsection \<open>What the notices look like in a trace\<close>

lemma send_join_reminder_no_warning:
  "\<not> list_ex is_spam_warning (send_join_reminder c n uid e)"
  by (simp add: send_join_reminder_def split: option.splits)

lemma send_spam_warning_warns:
  "list_ex is_spam_warning (send_spam_warning c u k e)"
  by (simp add: send_spam_warning_def split: option.splits)

lemma send_join_reminder_reminds:
  "list_ex is_join_reminder (send_join_reminder c n uid e)"
  by (simp add: send_join_reminder_def split: option.splits)

lemma send_spam_warning_no_lookup:
  "\<not> list_ex is_membership_lookup (send_spam_warning c u k e)"
  by (simp add: send_spam_warning_def split: option.splits)

lemma send_spam_warning_sends:
  "SendMessage c (SpamWarningText (user_name u) k) \<in> set (send_spam_warning c u k e)"
  by (simp add: send_spam_warning_def split: option.splits)

subsection \<open>The branches of \<^verbatim>\<open>on_group_message\<close>\<close>

lemma on_group_message_window:
  assumes "has_message upd" "user_id (effective_user upd) \<noteq> bot_id e"
  shows "window_of (state (on_group_message self upd e)) (user_id (effective_user upd)) =
     popleft_while (clock_spam e - timedelta_seconds SPAM_WINDOW_SEC)
       (window_of self (user_id (effective_user upd)) @ [clock_spam e])"
  using assms
  by (simp add: on_group_message_def Let_def window_of_def defaultdict_get_def
      split: sum.splits)

lemma classified_spam_iff:
  "classified_spam (on_group_message self upd e) \<longleftrightarrow>
     has_message upd \<and> user_id (effective_user upd) \<noteq> bot_id e \<and>
     SPAM_MAX_MSG < int (length (popleft_while (clock_spam e - timedelta_seconds SPAM_WINDOW_SEC)
       (window_of self (user_id (effective_user upd)) @ [clock_spam e])))"
  by (simp add: on_group_message_def Let_def window_of_def classified_spam_def
      send_spam_warning_warns send_join_reminder_no_warning
      split: sum.splits)

lemma on_group_message_spam:
  assumes "classified_spam (on_group_message self upd e)"
  shows "on_group_message self upd e =
     \<lparr>state = self\<lparr>msg_times := (msg_times self)(user_id (effective_user upd) \<mapsto>
                  popleft_while (clock_spam e - timedelta_seconds SPAM_WINDOW_SEC)
                    (window_of self (user_id (effective_user upd)) @ [clock_spam e])),
                warnings := (warnings self)(user_id (effective_user upd) \<mapsto>
                  warning_count self (user_id (effective_user upd)) + 1)\<rparr>,
      trace = DeleteMessage # send_spam_warning (effective_chat_id upd) (effective_user upd)
                (warning_count self (user_id (effective_user upd)) + 1) e,
      raised = None\<rparr>"
  using assms unfolding classified_spam_iff
  by (simp add: on_group_message_def Let_def window_of_def warning_count_def)

lemma on_group_message_not_spam:
  assumes "has_message upd" "user_id (effective_user upd) \<noteq> bot_id e"
    and "\<not> classified_spam (on_group_message self upd e)"
  shows "on_group_message self upd e =
     (let uid = user_id (effective_user upd);
          s1 = self\<lparr>msg_times := (msg_times self)(uid \<mapsto>
                  popleft_while (clock_spam e - timedelta_seconds SPAM_WINDOW_SEC)
                    (window_of self uid @ [clock_spam e]))\<rparr>
      in case is_user_in_channel uid e of
           Inl x \<Rightarrow> \<lparr>state = s1, trace = [GetChatMember CHANNEL_USERNAME uid], raised = Some x\<rparr>
         | Inr True \<Rightarrow> \<lparr>state = s1, trace = [GetChatMember CHANNEL_USERNAME uid], raised = None\<rparr>
         | Inr False \<Rightarrow>
             if last_reminder self uid = None
                \<or> clock_check e - the (last_reminder self uid) > timedelta_minutes 2
             then \<lparr>state = s1\<lparr>last_reminder := (last_reminder self)(uid \<mapsto> clock_mark e)\<rparr>,
                   trace = [GetChatMember CHANNEL_USERNAME uid, DeleteMessage]
                     @ send_join_reminder (effective_chat_id upd) (display_name (effective_user upd)) uid e,
                   raised = None\<rparr>
             else \<lparr>state = s1, trace = [GetChatMember CHANNEL_USERNAME uid, DeleteMessage],
                   raised = None\<rparr>)"
  using assms unfolding classified_spam_iff
  by (simp add: on_group_message_def Let_def window_of_def split: sum.splits bool.splits)

subsection \<open>A burst of messages inside one window\<close>

text \<open>
  When the stored timestamps of a user and those of a run of further messages of that user
  all lie within one span of \<^verbatim>\<open>SPAM_WINDOW_SEC\<close>, nothing is trimmed, and the message
  that makes the window longer than \<^verbatim>\<open>SPAM_MAX_MSG\<close> is the first one classified as
  spam: from an empty window, the first five pass and the sixth does not.
\<close>

lemma state_after_burst:
  assumes "list_all (\<lambda>ue. has_message (fst ue) \<and> user_id (effective_user (fst ue)) = uid
             \<and> uid \<noteq> bot_id (snd ue)) ues"
    and "list_all (\<lambda>t. hi - timedelta_seconds SPAM_WINDOW_SEC \<le> t \<and> t \<le> hi)
           (window_of s uid @ map (\<lambda>ue. clock_spam (snd ue)) ues)"
  shows "window_of (state_after s ues) uid = window_of s uid @ map (\<lambda>ue. clock_spam (snd ue)) ues"
  using assms
proof (induction ues arbitrary: s)
  case Nil
  show ?case by simp
next
  case (Cons ue ues)
  let ?s1 = "state (on_group_message s (fst ue) (snd ue))"
  from Cons.prems(1) have g: "has_message (fst ue)" "user_id (effective_user (fst ue)) = uid"
    "uid \<noteq> bot_id (snd ue)" by simp_all
  from Cons.prems(2) have "list_all (\<lambda>t. clock_spam (snd ue) - timedelta_seconds SPAM_WINDOW_SEC \<le> t)
      (window_of s uid @ [clock_spam (snd ue)])"
    by (intro within_span_not_stale [where hi = hi] window_span_nonneg) simp_all
  then have "popleft_while (clock_spam (snd ue) - timedelta_seconds SPAM_WINDOW_SEC)
      (window_of s uid @ [clock_spam (snd ue)]) = window_of s uid @ [clock_spam (snd ue)]"
    by (rule popleft_while_keeps)
  with on_group_message_window [of "fst ue" "snd ue" s] g
  have w: "window_of ?s1 uid = window_of s uid @ [clock_spam (snd ue)]" by simp
  have "window_of (state_after ?s1 ues) uid = window_of ?s1 uid @ map (\<lambda>ue. clock_spam (snd ue)) ues"
    using Cons.prems by (intro Cons.IH) (simp_all add: w)
  then show ?case by (simp add: w)
qed

lemma burst_classification:
  assumes "list_all (\<lambda>ue. has_message (fst ue) \<and> user_id (effective_user (fst ue)) = uid
             \<and> uid \<noteq> bot_id (snd ue)) (ues @ [ue])"
    and "list_all (\<lambda>t. hi - timedelta_seconds SPAM_WINDOW_SEC \<le> t \<and> t \<le> hi)
           (window_of s uid @ map (\<lambda>ue. clock_spam (snd ue)) (ues @ [ue]))"
  shows "classified_spam (on_group_message (state_after s ues) (fst ue) (snd ue)) \<longleftrightarrow>
           SPAM_MAX_MSG < int (length (window_of s uid) + length ues + 1)"
proof -
  from assms have w: "window_of (state_after s ues) uid =
      window_of s uid @ map (\<lambda>ue. clock_spam (snd ue)) ues"
    by (intro state_after_burst [where hi = hi]) simp_all
  from assms(1) have g: "has_message (fst ue)" "user_id (effective_user (fst ue)) = uid"
    "uid \<noteq> bot_id (snd ue)" by simp_all
  from assms(2) have "list_all (\<lambda>t. clock_spam (snd ue) - timedelta_seconds SPAM_WINDOW_SEC \<le> t)
      (window_of (state_after s ues) uid @ [clock_spam (snd ue)])"
    unfolding w by (intro within_span_not_stale [where hi = hi] window_span_nonneg) simp_all
  then have "popleft_while (clock_spam (snd ue) - timedelta_seconds SPAM_WINDOW_SEC)
      (window_of (state_after s ues) uid @ [clock_spam (snd ue)]) =
      window_of (state_after s ues) uid @ [clock_spam (snd ue)]"
    by (rule popleft_while_keeps)
  with g show ?thesis by (simp add: classified_spam_iff w)
qed

subsection \<open>The admin command\<close>

text \<open>When the command carries a message, the lookup returns and the rejecting reply
  does not raise, a caller who is no admin is rejected and nothing changes, and an admin
  clears the warning counts.\<close>

lemma cmd_reset_warnings_calls_succeed:
  assumes "has_message upd" and "caller_lookup e = Inr status" and "reject_reply e = None"
  shows "(status \<notin> {''administrator'', ''creator''} \<longrightarrow>
            cmd_reset_warnings self upd e =
              \<lparr>state = self,
               trace = [GetChatMemberOfChat (effective_chat_id upd) (user_id (effective_user upd)),
                        ReplyText AdminsOnlyText],
               raised = None\<rparr>)
       \<and> (status \<in> {''administrator'', ''creator''} \<longrightarrow>
            cmd_reset_warnings self upd e =
              \<lparr>state = self\<lparr>warnings := Map.empty\<rparr>,
               trace = [GetChatMemberOfChat (effective_chat_id upd) (user_id (effective_user upd)),
                        ReplyText WarningsClearedText],
               raised = confirm_reply e\<rparr>)"
  using assms
  by (simp add: cmd_reset_warnings_def clear_and_confirm_def reply_text_def Let_def)

text \<open>When the command carries no message, every caller clears the warning counts: the
  only call is the lookup, and the function raises at the confirming reply.\<close>

lemma cmd_reset_warnings_no_message:
  assumes "\<not> has_message upd"
  shows "cmd_reset_warnings self upd e =
     \<lparr>state = self\<lparr>warnings := Map.empty\<rparr>,
      trace = [GetChatMemberOfChat (effective_chat_id upd) (user_id (effective_user upd))],
      raised = Some AttributeError\<rparr>"
  using assms
  by (simp add: cmd_reset_warnings_def clear_and_confirm_def reply_text_def Let_def
      split: sum.splits)

text \<open>No run of the command touches a message window or a reminder time.\<close>

lemma cmd_reset_warnings_frame:
  "msg_times (state (cmd_reset_warnings self upd e)) = msg_times self
   \<and> last_reminder (state (cmd_reset_warnings self upd e)) = last_reminder self"
  by (simp add: cmd_reset_warnings_def clear_and_confirm_def reply_text_def Let_def
      split: sum.splits option.splits prod.splits)

text \<open>A run of the message handler changes the window of nobody but the sender, and of
  nobody at all when there is no message or the sender is the bot.\<close>

lemma on_group_message_other_windows:
  "v \<noteq> user_id (effective_user upd) \<Longrightarrow>
     msg_times (state (on_group_message self upd e)) v = msg_times self v"
  by (simp add: on_group_message_def Let_def split: sum.splits)

lemma on_group_message_ignored_windows:
  "\<not> (has_message upd \<and> user_id (effective_user upd) \<noteq> bot_id e) \<Longrightarrow>
     msg_times (state (on_group_message self upd e)) = msg_times self"
  by (auto simp: on_group_message_def)

section \<open>The claims\<close>

subsection \<open>C1: the spam threshold\<close>

text \<open>
  C1. For every user, after the current timestamp is appended and the entries older than
  now minus \<^verbatim>\<open>SPAM_WINDOW_SEC\<close> are trimmed, a window of exactly \<^verbatim>\<open>SPAM_MAX_MSG\<close>
  entries is allowed and a window of \<^verbatim>\<open>SPAM_MAX_MSG + 1\<close> entries is classified as
  spam; the test is a strict greater-than on the number of entries. The window the run
  leaves is the trimmed one, and the message is classified as spam exactly when that
  window is longer than \<^verbatim>\<open>SPAM_MAX_MSG\<close>.
\<close>

theorem spam_threshold:
  assumes "has_message upd" and "user_id (effective_user upd) \<noteq> bot_id e"
  shows "window_of (state (on_group_message self upd e)) (user_id (effective_user upd)) =
           popleft_while (clock_spam e - timedelta_seconds SPAM_WINDOW_SEC)
             (window_of self (user_id (effective_user upd)) @ [clock_spam e])
       \<and> (int (length (window_of (state (on_group_message self upd e))
              (user_id (effective_user upd)))) = SPAM_MAX_MSG
            \<longrightarrow> \<not> classified_spam (on_group_message self upd e))
       \<and> (int (length (window_of (state (on_group_message self upd e))
              (user_id (effective_user upd)))) = SPAM_MAX_MSG + 1
            \<longrightarrow> classified_spam (on_group_message self upd e))
       \<and> (classified_spam (on_group_message self upd e) \<longleftrightarrow>
            SPAM_MAX_MSG < int (length (window_of (state (on_group_message self upd e))
              (user_id (effective_user upd)))))"
proof -
  have w: "window_of (state (on_group_message self upd e)) (user_id (effective_user upd)) =
           popleft_while (clock_spam e - timedelta_seconds SPAM_WINDOW_SEC)
             (window_of self (user_id (effective_user upd)) @ [clock_spam e])"
    using assms by (rule on_group_message_window)
  have c: "classified_spam (on_group_message self upd e) \<longleftrightarrow>
            SPAM_MAX_MSG < int (length (window_of (state (on_group_message self upd e))
              (user_id (effective_user upd))))"
    unfolding w using assms by (simp add: classified_spam_iff)
  from w c show ?thesis by simp
qed

text \<open>Five messages of one user at seconds 0 to 4 leave a window of five entries; the
  fifth is allowed, and a sixth at second 5 is classified as spam.\<close>

lemma state_after_four_messages:
  "state_after init_bot (butlast five_messages) =
     \<lparr>msg_times = [7 \<mapsto> [0, 1000000, 2000000, 3000000]],
      warnings = Map.empty, last_reminder = Map.empty\<rparr>"
  by (simp add: five_messages_def run_defs group_defs)

lemma state_after_five_messages:
  "state_after init_bot five_messages =
     \<lparr>msg_times = [7 \<mapsto> [0, 1000000, 2000000, 3000000, 4000000]],
      warnings = Map.empty, last_reminder = Map.empty\<rparr>"
  by (simp add: five_messages_def run_defs group_defs)

theorem spam_threshold_witness:
  "has_message (message_from alice)
   \<and> user_id (effective_user (message_from alice)) \<noteq> bot_id (world_at 5 (Inr ''member''))
   \<and> window_of (state (on_group_message (state_after init_bot (butlast five_messages))
        (message_from alice) (world_at 4 (Inr ''member'')))) 7 =
       [0, 1000000, 2000000, 3000000, 4000000]
   \<and> \<not> classified_spam (on_group_message (state_after init_bot (butlast five_messages))
        (message_from alice) (world_at 4 (Inr ''member'')))
   \<and> window_of (state (on_group_message (state_after init_bot five_messages)
        (message_from alice) (world_at 5 (Inr ''member'')))) 7 =
       [0, 1000000, 2000000, 3000000, 4000000, 5000000]
   \<and> classified_spam (on_group_message (state_after init_bot five_messages)
        (message_from alice) (world_at 5 (Inr ''member'')))"
proof -
  have h1: "has_message (message_from alice)" by (simp add: message_from_def)
  have h2: "user_id (effective_user (message_from alice)) \<noteq> bot_id (world_at t (Inr ''member''))"
    for t by (simp add: group_defs)
  have u: "user_id (effective_user (message_from alice)) = 7"
    by (simp add: group_defs)
  have w5: "popleft_while (clock_spam (world_at 4 (Inr ''member'')) - timedelta_seconds SPAM_WINDOW_SEC)
             (window_of (state_after init_bot (butlast five_messages)) 7
               @ [clock_spam (world_at 4 (Inr ''member''))])
     = [0, 1000000, 2000000, 3000000, 4000000]"
    unfolding state_after_four_messages
    by (simp add: world_at_def timedelta_seconds_def SPAM_WINDOW_SEC_def window_of_def
        defaultdict_get_def)
  have w6: "popleft_while (clock_spam (world_at 5 (Inr ''member'')) - timedelta_seconds SPAM_WINDOW_SEC)
             (window_of (state_after init_bot five_messages) 7
               @ [clock_spam (world_at 5 (Inr ''member''))])
     = [0, 1000000, 2000000, 3000000, 4000000, 5000000]"
    unfolding state_after_five_messages
    by (simp add: world_at_def timedelta_seconds_def SPAM_WINDOW_SEC_def window_of_def
        defaultdict_get_def)
  show ?thesis
    using spam_threshold [OF h1 h2 [of 4], where self = "state_after init_bot (butlast five_messages)"]
      spam_threshold [OF h1 h2 [of 5], where self = "state_after init_bot five_messages"]
      h1 h2 [of 5]
    unfolding u w5 w6 by (simp add: SPAM_MAX_MSG_def)
qed

subsection \<open>C2: the reminder throttle\<close>

text \<open>
  C2. For every non-member whose message reaches the membership check (it is not
  classified as spam), a join reminder is sent if and only if the stored reminder time of
  that user is absent or more than two minutes before the clock reading of the check; the
  message is deleted either way. When a reminder is sent, the stored time becomes the
  clock reading taken after the send. Runs of the handler do not overlap, so a second
  message of the same non-member that is checked no more than two minutes after that
  stored time, in particular one second after it, is deleted and gets no second reminder.
\<close>

theorem reminder_throttle:
  assumes "has_message upd" and "user_id (effective_user upd) \<noteq> bot_id e"
    and "\<not> classified_spam (on_group_message self upd e)"
    and "is_user_in_channel (user_id (effective_user upd)) e = Inr False"
  shows "(reminder_sent (on_group_message self upd e) \<longleftrightarrow>
            last_reminder self (user_id (effective_user upd)) = None
            \<or> timedelta_minutes 2 < clock_check e - the (last_reminder self (user_id (effective_user upd))))
       \<and> DeleteMessage \<in> set (trace (on_group_message self upd e))
       \<and> (reminder_sent (on_group_message self upd e) \<longrightarrow>
            last_reminder (state (on_group_message self upd e)) (user_id (effective_user upd)) =
              Some (clock_mark e))
       \<and> (\<not> reminder_sent (on_group_message self upd e) \<longrightarrow>
            last_reminder (state (on_group_message self upd e)) = last_reminder self)
       \<and> (reminder_sent (on_group_message self upd e)
            \<and> has_message upd2 \<and> effective_user upd2 = effective_user upd
            \<and> bot_id e2 = bot_id e
            \<and> \<not> classified_spam (on_group_message (state (on_group_message self upd e)) upd2 e2)
            \<and> is_user_in_channel (user_id (effective_user upd)) e2 = Inr False
            \<and> clock_check e2 - clock_mark e \<le> timedelta_minutes 2
          \<longrightarrow> DeleteMessage \<in> set (trace (on_group_message (state (on_group_message self upd e)) upd2 e2))
            \<and> \<not> reminder_sent (on_group_message (state (on_group_message self upd e)) upd2 e2))"
proof -
  let ?uid = "user_id (effective_user upd)"
  let ?r = "on_group_message self upd e"
  note eq = on_group_message_not_spam [OF assms(1,2,3)]
  have a: "reminder_sent ?r \<longleftrightarrow>
            last_reminder self ?uid = None
            \<or> timedelta_minutes 2 < clock_check e - the (last_reminder self ?uid)"
    by (subst eq)
       (simp add: assms(4) Let_def reminder_sent_def send_join_reminder_reminds)
  have b: "DeleteMessage \<in> set (trace ?r)"
    by (subst eq) (simp add: assms(4) Let_def)
  have c: "reminder_sent ?r \<longrightarrow> last_reminder (state ?r) ?uid = Some (clock_mark e)"
    unfolding a by (subst eq) (simp add: assms(4) Let_def)
  have d: "\<not> reminder_sent ?r \<longrightarrow> last_reminder (state ?r) = last_reminder self"
    unfolding a by (subst eq) (simp add: assms(4) Let_def)
  have f: "DeleteMessage \<in> set (trace (on_group_message (state ?r) upd2 e2))
            \<and> \<not> reminder_sent (on_group_message (state ?r) upd2 e2)"
    if h: "reminder_sent ?r" "has_message upd2" "effective_user upd2 = effective_user upd"
      "bot_id e2 = bot_id e" "\<not> classified_spam (on_group_message (state ?r) upd2 e2)"
      "is_user_in_channel ?uid e2 = Inr False" "clock_check e2 - clock_mark e \<le> timedelta_minutes 2"
  proof -
    from c h(1) have l: "last_reminder (state ?r) ?uid = Some (clock_mark e)" by simp
    have nb: "user_id (effective_user upd2) \<noteq> bot_id e2" using h(3,4) assms(2) by simp
    note eq2 = on_group_message_not_spam [OF h(2) nb h(5)]
    have u2: "user_id (effective_user upd2) = ?uid" using h(3) by simp
    have t: "\<not> timedelta_minutes 2 < clock_check e2 - clock_mark e"
      using h(7) by simp
    show ?thesis
      by (subst (1 2) eq2) (simp add: u2 h(6) l t Let_def reminder_sent_def)
  qed
  from a b c d f show ?thesis by blast
qed

theorem reminder_throttle_witness:
  "has_message (message_from alice)
   \<and> user_id (effective_user (message_from alice)) \<noteq> bot_id (world_at 0 (Inr ''left''))
   \<and> \<not> classified_spam (on_group_message init_bot (message_from alice) (world_at 0 (Inr ''left'')))
   \<and> is_user_in_channel 7 (world_at 0 (Inr ''left'')) = Inr False
   \<and> last_reminder init_bot 7 = None
   \<and> reminder_sent (on_group_message init_bot (message_from alice) (world_at 0 (Inr ''left'')))
   \<and> DeleteMessage \<in> set (trace (on_group_message init_bot (message_from alice)
        (world_at 0 (Inr ''left''))))
   \<and> last_reminder (state (on_group_message init_bot (message_from alice)
        (world_at 0 (Inr ''left'')))) 7 = Some 60000000
   \<and> clock_check (world_at 61 (Inr ''left'')) =
        clock_mark (world_at 0 (Inr ''left'')) + timedelta_seconds 1
   \<and> clock_check (world_at 61 (Inr ''left'')) - clock_mark (world_at 0 (Inr ''left''))
        \<le> timedelta_minutes 2
   \<and> \<not> classified_spam (on_group_message
        (state (on_group_message init_bot (message_from alice) (world_at 0 (Inr ''left''))))
        (message_from alice) (world_at 61 (Inr ''left'')))
   \<and> DeleteMessage \<in> set (trace (on_group_message
        (state (on_group_message init_bot (message_from alice) (world_at 0 (Inr ''left''))))
        (message_from alice) (world_at 61 (Inr ''left''))))
   \<and> \<not> reminder_sent (on_group_message
        (state (on_group_message init_bot (message_from alice) (world_at 0 (Inr ''left''))))
        (message_from alice) (world_at 61 (Inr ''left'')))"
proof -
  have h1: "has_message (message_from alice)" by (simp add: message_from_def)
  have h2: "user_id (effective_user (message_from alice)) \<noteq> bot_id (world_at 0 (Inr ''left''))"
    by (simp add: group_defs)
  have h3: "\<not> classified_spam (on_group_message init_bot (message_from alice)
      (world_at 0 (Inr ''left'')))"
    by (simp add: classified_spam_def run_defs group_defs)
  have u: "user_id (effective_user (message_from alice)) = 7" by (simp add: group_defs)
  have h4: "is_user_in_channel (user_id (effective_user (message_from alice)))
      (world_at 0 (Inr ''left'')) = Inr False"
    by (simp add: is_user_in_channel_def group_defs)
  have h5: "is_user_in_channel 7 (world_at 61 (Inr ''left'')) = Inr False"
    by (simp add: is_user_in_channel_def group_defs)
  have h6: "clock_check (world_at 61 (Inr ''left'')) =
        clock_mark (world_at 0 (Inr ''left'')) + timedelta_seconds 1"
    by (simp add: world_at_def timedelta_seconds_def WARNING_AUTO_DELETE_SEC_def)
  have h8: "clock_check (world_at 61 (Inr ''left'')) - clock_mark (world_at 0 (Inr ''left''))
        \<le> timedelta_minutes 2"
    by (simp add: world_at_def timedelta_seconds_def timedelta_minutes_def
        WARNING_AUTO_DELETE_SEC_def)
  have h7: "\<not> classified_spam (on_group_message
        (state (on_group_message init_bot (message_from alice) (world_at 0 (Inr ''left''))))
        (message_from alice) (world_at 61 (Inr ''left'')))"
    by (simp add: classified_spam_def run_defs group_defs)
  have b: "bot_id (world_at 61 (Inr ''left'')) = bot_id (world_at 0 (Inr ''left''))"
    by (simp add: world_at_def)
  have l: "last_reminder init_bot 7 = None" by (simp add: init_bot_def)
  have m: "clock_mark (world_at 0 (Inr ''left'')) = 60000000"
    by (simp add: world_at_def timedelta_seconds_def WARNING_AUTO_DELETE_SEC_def)
  show ?thesis
    using reminder_throttle [OF h1 h2 h3 h4, of "message_from alice" "world_at 61 (Inr ''left'')"]
      h1 h2 h3 h4 h5 h6 h7 h8 b l
    unfolding u by (simp add: m)
qed

subsection \<open>C3: the admin command\<close>

text \<open>
  C3. For every run of the \<^verbatim>\<open>resetwarnings\<close> command: a caller who is neither
  administrator nor creator gets a rejection and the warning counts stay as they are; an
  administrator or creator clears all warning counts and gets a confirmation.
  The code does not keep this. The lookup of the caller and the rejecting reply both sit
  inside \<^verbatim>\<open>try ... except Exception: pass\<close>, and after the \<^verbatim>\<open>pass\<close> the function goes
  on to clear the counts. Below, a caller whose status is \<^verbatim>\<open>member\<close> clears the counts
  of everybody because the rejecting reply raises, and so does a caller whose lookup
  raises. The same happens for every caller when the command arrives without a message
  (\<open>cmd_reset_warnings_no_message\<close>). When the command carries a message, the lookup
  returns and the rejecting reply does not raise, the command does what the claim says
  (\<open>cmd_reset_warnings_calls_succeed\<close>).
\<close>

theorem reset_by_non_admin:
  "cmd_reset_warnings flagged_bot (message_from alice)
     \<lparr>caller_lookup = Inr ''member'', reject_reply = Some TimedOut, confirm_reply = None\<rparr> =
   \<lparr>state = flagged_bot\<lparr>warnings := Map.empty\<rparr>,
    trace = [GetChatMemberOfChat (- 100) 7, ReplyText AdminsOnlyText,
             ReplyText WarningsClearedText],
    raised = None\<rparr>
   \<and> cmd_reset_warnings flagged_bot (message_from alice)
     \<lparr>caller_lookup = Inl TimedOut, reject_reply = None, confirm_reply = None\<rparr> =
   \<lparr>state = flagged_bot\<lparr>warnings := Map.empty\<rparr>,
    trace = [GetChatMemberOfChat (- 100) 7, ReplyText WarningsClearedText],
    raised = None\<rparr>
   \<and> warning_count flagged_bot 7 = 3
   \<and> warning_count (flagged_bot\<lparr>warnings := Map.empty\<rparr>) 7 = 0"
  by (simp add: cmd_reset_warnings_def clear_and_confirm_def reply_text_def message_from_def
      alice_def warning_count_def defaultdict_get_def flagged_bot_def)

subsection \<open>C4: the daily reset\<close>

text \<open>
  C4. The daily reset clears all message windows, all warning counts and all reminder
  times: it leaves the state the object starts with, so a message handled right after it,
  also one of a user flagged before, is handled exactly as that user's first message ever.
\<close>

theorem daily_reset_is_fresh:
  "reset_warnings_daily self = init_bot
   \<and> on_group_message (reset_warnings_daily self) upd e = on_group_message init_bot upd e"
proof -
  have "reset_warnings_daily self = init_bot"
    by (cases self) (simp add: reset_warnings_daily_def init_bot_def)
  then show ?thesis by simp
qed

theorem daily_reset_is_fresh_witness:
  "classified_spam (on_group_message flagged_bot (message_from alice) (world_at 6 (Inr ''left'')))
   \<and> on_group_message (reset_warnings_daily flagged_bot) (message_from alice)
        (world_at 6 (Inr ''left'')) =
       on_group_message init_bot (message_from alice) (world_at 6 (Inr ''left''))
   \<and> window_of (state (on_group_message (reset_warnings_daily flagged_bot) (message_from alice)
        (world_at 6 (Inr ''left'')))) 7 = [6000000]
   \<and> warning_count (state (on_group_message (reset_warnings_daily flagged_bot)
        (message_from alice) (world_at 6 (Inr ''left'')))) 7 = 0
   \<and> reminder_sent (on_group_message (reset_warnings_daily flagged_bot) (message_from alice)
        (world_at 6 (Inr ''left'')))"
proof -
  have a: "classified_spam (on_group_message flagged_bot (message_from alice)
      (world_at 6 (Inr ''left'')))"
    by (simp add: classified_spam_def run_defs group_defs)
  have b: "window_of (state (on_group_message init_bot (message_from alice)
        (world_at 6 (Inr ''left'')))) 7 = [6000000]
     \<and> warning_count (state (on_group_message init_bot (message_from alice)
        (world_at 6 (Inr ''left'')))) 7 = 0
     \<and> reminder_sent (on_group_message init_bot (message_from alice) (world_at 6 (Inr ''left'')))"
    by (simp add: read_defs run_defs group_defs)
  show ?thesis
    using daily_reset_is_fresh [of flagged_bot "message_from alice" "world_at 6 (Inr ''left'')"] a b
    by simp
qed

subsection \<open>C5: the warning count\<close>

text \<open>
  C5. For every user, a spam classification raises that user's warning count by exactly
  one, and the warning that is sent carries the count after the increment. A run of the
  message handler that does not classify its message as spam leaves all counts as they
  are, no run changes the count of another user, and no run lowers any count: only the
  two resets do.
\<close>

theorem spam_bumps_warning:
  "(classified_spam (on_group_message self upd e) \<longrightarrow>
      warning_count (state (on_group_message self upd e)) (user_id (effective_user upd)) =
        warning_count self (user_id (effective_user upd)) + 1
      \<and> trace (on_group_message self upd e) =
          DeleteMessage # send_spam_warning (effective_chat_id upd) (effective_user upd)
            (warning_count (state (on_group_message self upd e)) (user_id (effective_user upd))) e
      \<and> SendMessage (effective_chat_id upd)
          (SpamWarningText (user_name (effective_user upd))
            (warning_count (state (on_group_message self upd e)) (user_id (effective_user upd))))
          \<in> set (trace (on_group_message self upd e)))
   \<and> (\<not> classified_spam (on_group_message self upd e) \<longrightarrow>
        warnings (state (on_group_message self upd e)) = warnings self)
   \<and> (\<forall>v. v \<noteq> user_id (effective_user upd) \<longrightarrow>
        warning_count (state (on_group_message self upd e)) v = warning_count self v)
   \<and> (\<forall>v. warning_count self v \<le> warning_count (state (on_group_message self upd e)) v)"
proof (cases "classified_spam (on_group_message self upd e)")
  case True
  note eq = on_group_message_spam [OF True]
  have a: "warning_count (state (on_group_message self upd e)) (user_id (effective_user upd)) =
        warning_count self (user_id (effective_user upd)) + 1"
    by (subst eq) (simp add: warning_count_def defaultdict_get_def)
  have b: "trace (on_group_message self upd e) =
          DeleteMessage # send_spam_warning (effective_chat_id upd) (effective_user upd)
            (warning_count (state (on_group_message self upd e)) (user_id (effective_user upd))) e"
    unfolding a by (subst eq) simp
  have c: "SendMessage (effective_chat_id upd)
          (SpamWarningText (user_name (effective_user upd))
            (warning_count (state (on_group_message self upd e)) (user_id (effective_user upd))))
          \<in> set (trace (on_group_message self upd e))"
    by (subst b) (simp add: send_spam_warning_sends)
  have d: "\<forall>v. v \<noteq> user_id (effective_user upd) \<longrightarrow>
        warning_count (state (on_group_message self upd e)) v = warning_count self v"
    by (subst eq) (simp add: warning_count_def defaultdict_get_def)
  from a d have "\<forall>v. warning_count self v \<le> warning_count (state (on_group_message self upd e)) v"
    by (metis add_increasing2 order_refl zero_le_one)
  with True a b c d show ?thesis by simp
next
  case False
  have "warnings (state (on_group_message self upd e)) = warnings self"
  proof (cases "has_message upd \<and> user_id (effective_user upd) \<noteq> bot_id e")
    case True
    then show ?thesis
      by (subst on_group_message_not_spam) (use False in \<open>simp_all add: Let_def split: sum.splits bool.splits\<close>)
  next
    case False
    then show ?thesis by (auto simp: on_group_message_def)
  qed
  with False show ?thesis by (simp add: warning_count_def)
qed

theorem spam_bumps_warning_witness:
  "classified_spam (on_group_message flagged_bot (message_from alice) (world_at 6 (Inr ''member'')))
   \<and> warning_count flagged_bot 7 = 3
   \<and> warning_count (state (on_group_message flagged_bot (message_from alice)
        (world_at 6 (Inr ''member'')))) 7 = 4
   \<and> SendMessage (- 100) (SpamWarningText ''Alice'' 4)
        \<in> set (trace (on_group_message flagged_bot (message_from alice)
             (world_at 6 (Inr ''member''))))"
proof -
  have a: "classified_spam (on_group_message flagged_bot (message_from alice)
      (world_at 6 (Inr ''member'')))"
    by (simp add: classified_spam_def run_defs group_defs)
  have b: "warning_count flagged_bot 7 = 3"
    by (simp add: warning_count_def defaultdict_get_def flagged_bot_def)
  have c: "user_id (effective_user (message_from alice)) = 7
     \<and> effective_chat_id (message_from alice) = - 100
     \<and> user_name (effective_user (message_from alice)) = ''Alice''"
    by (simp add: group_defs user_name_def)
  have d: "send_spam_warning (- 100) (effective_user (message_from alice)) 4
       (world_at 6 (Inr ''member'')) =
     [SendMessage (- 100) (SpamWarningText ''Alice'' 4), Sleep 60, DeleteNotice]"
    by (simp add: run_defs group_defs)
  show ?thesis
    using spam_bumps_warning [of flagged_bot "message_from alice" "world_at 6 (Inr ''member'')"]
      a b
    by (simp add: c d)
qed

subsection \<open>C6: spam ends the run\<close>

text \<open>
  C6. For every message classified as spam, the membership of the sender is not looked
  up and the sender's reminder time (indeed every reminder time) is left as it is: the run
  deletes the message, raises the warning count, sends the warning and returns.
\<close>

theorem spam_skips_membership:
  assumes "classified_spam (on_group_message self upd e)"
  shows "\<not> membership_checked (on_group_message self upd e)
       \<and> last_reminder (state (on_group_message self upd e)) = last_reminder self
       \<and> raised (on_group_message self upd e) = None
       \<and> trace (on_group_message self upd e) =
           DeleteMessage # send_spam_warning (effective_chat_id upd) (effective_user upd)
             (warning_count self (user_id (effective_user upd)) + 1) e
       \<and> warning_count (state (on_group_message self upd e)) (user_id (effective_user upd)) =
           warning_count self (user_id (effective_user upd)) + 1"
  by (subst (1 2 3 4 5) on_group_message_spam [OF assms])
     (simp add: membership_checked_def send_spam_warning_no_lookup
        warning_count_def defaultdict_get_def)

theorem spam_skips_membership_witness:
  "classified_spam (on_group_message flagged_bot (message_from alice) (world_at 6 (Inr ''left'')))
   \<and> \<not> membership_checked (on_group_message flagged_bot (message_from alice)
        (world_at 6 (Inr ''left'')))
   \<and> last_reminder (state (on_group_message flagged_bot (message_from alice)
        (world_at 6 (Inr ''left'')))) = [7 \<mapsto> 0]
   \<and> trace (on_group_message flagged_bot (message_from alice) (world_at 6 (Inr ''left''))) =
       [DeleteMessage, SendMessage (- 100) (SpamWarningText ''Alice'' 4), Sleep 60, DeleteNotice]"
proof -
  have a: "classified_spam (on_group_message flagged_bot (message_from alice)
      (world_at 6 (Inr ''left'')))"
    by (simp add: classified_spam_def run_defs group_defs)
  have b: "warning_count flagged_bot (user_id (effective_user (message_from alice))) = 3
     \<and> last_reminder flagged_bot = [7 \<mapsto> 0]"
    by (simp add: warning_count_def defaultdict_get_def group_defs)
  have c: "send_spam_warning (effective_chat_id (message_from alice))
       (effective_user (message_from alice)) 4 (world_at 6 (Inr ''left'')) =
     [SendMessage (- 100) (SpamWarningText ''Alice'' 4), Sleep 60, DeleteNotice]"
    by (simp add: run_defs group_defs)
  show ?thesis
    using spam_skips_membership [OF a] a
    by (simp add: b c)
qed

subsection \<open>C7: a failing membership lookup\<close>

text \<open>
  C7, as amended. For every user, when the membership lookup raises \<^verbatim>\<open>BadRequest\<close> or
  \<^verbatim>\<open>Forbidden\<close>, the membership check returns false: the failure counts as
  non-membership, the handler deletes the message and raises nothing. (The claim as
  written speaks of every error of the lookup; \<^verbatim>\<open>is_user_in_channel\<close> catches these two
  classes only, and any other exception leaves it and the handler, as the counterexample
  shows for a timeout.)
\<close>

theorem membership_error_fail_closed:
  assumes "member_lookup e = Inl BadRequest \<or> member_lookup e = Inl Forbidden"
  shows "is_user_in_channel uid e = Inr False
       \<and> (has_message upd \<and> user_id (effective_user upd) \<noteq> bot_id e
            \<and> \<not> classified_spam (on_group_message self upd e)
          \<longrightarrow> raised (on_group_message self upd e) = None
            \<and> DeleteMessage \<in> set (trace (on_group_message self upd e)))"
proof -
  have a: "is_user_in_channel v e = Inr False" for v
    using assms by (auto simp: is_user_in_channel_def)
  have "raised (on_group_message self upd e) = None
            \<and> DeleteMessage \<in> set (trace (on_group_message self upd e))"
    if h: "has_message upd" "user_id (effective_user upd) \<noteq> bot_id e"
       "\<not> classified_spam (on_group_message self upd e)"
    by (subst (1 2) on_group_message_not_spam [OF h]) (simp add: a Let_def)
  with a show ?thesis by blast
qed

theorem membership_error_fail_closed_witness:
  "member_lookup (world_at 0 (Inl Forbidden)) = Inl Forbidden
   \<and> is_user_in_channel 7 (world_at 0 (Inl Forbidden)) = Inr False
   \<and> has_message (message_from alice)
   \<and> user_id (effective_user (message_from alice)) \<noteq> bot_id (world_at 0 (Inl Forbidden))
   \<and> \<not> classified_spam (on_group_message init_bot (message_from alice)
        (world_at 0 (Inl Forbidden)))
   \<and> raised (on_group_message init_bot (message_from alice) (world_at 0 (Inl Forbidden))) = None
   \<and> DeleteMessage \<in> set (trace (on_group_message init_bot (message_from alice)
        (world_at 0 (Inl Forbidden))))"
proof -
  have h: "member_lookup (world_at 0 (Inl Forbidden)) = Inl Forbidden"
    by (simp add: world_at_def)
  then have h': "member_lookup (world_at 0 (Inl Forbidden)) = Inl BadRequest
      \<or> member_lookup (world_at 0 (Inl Forbidden)) = Inl Forbidden" by simp
  have g: "has_message (message_from alice)
     \<and> user_id (effective_user (message_from alice)) \<noteq> bot_id (world_at 0 (Inl Forbidden))"
    by (simp add: group_defs)
  have n: "\<not> classified_spam (on_group_message init_bot (message_from alice)
        (world_at 0 (Inl Forbidden)))"
    by (simp add: classified_spam_def run_defs group_defs)
  show ?thesis
    using membership_error_fail_closed [OF h', of 7 "message_from alice" init_bot] h g n
    by simp
qed

text \<open>The lookup times out: the check raises instead of returning false, and so does the
  handler.\<close>

theorem membership_error_counterexample:
  "is_user_in_channel 7 (world_at 0 (Inl TimedOut)) = Inl TimedOut
   \<and> is_user_in_channel 7 (world_at 0 (Inl TimedOut)) \<noteq> Inr False
   \<and> raised (on_group_message init_bot (message_from alice) (world_at 0 (Inl TimedOut))) =
       Some TimedOut"
  by (simp add: is_user_in_channel_def world_at_def on_group_message_def Let_def
      message_from_def alice_def init_bot_def defaultdict_get_def timedelta_seconds_def
      SPAM_WINDOW_SEC_def SPAM_MAX_MSG_def)

subsection \<open>C8: the window is trimmed lazily\<close>

text \<open>
  C8, as amended. For every user, the window is trimmed only when a message of that user
  is handled: a run of the message handler leaves the window of every user but the sender
  as it is, a run that ignores its update (no message, or the bot's own) leaves all
  windows as they are, and so does the admin command. In the run for a message of the
  user the new timestamp is appended first, so the window that run leaves is never empty.
  If every stored timestamp is older than now minus \<^verbatim>\<open>SPAM_WINDOW_SEC\<close> at that
  moment, the window left is exactly the new timestamp; and if the stored window followed
  by now is in chronological order, every timestamp in the window left is at least now
  minus \<^verbatim>\<open>SPAM_WINDOW_SEC\<close>, and the window is still in chronological order.
  (The claim as written has the window empty once the span has passed without a message,
  and every stored timestamp within the span of the present moment: between two messages
  of a user nothing trims that user's window, and the loop stops at the first timestamp
  that is recent enough, whatever follows it.)
\<close>

theorem window_lazy_purge:
  "(has_message upd \<and> user_id (effective_user upd) \<noteq> bot_id e \<longrightarrow>
      (list_all (\<lambda>t. t < clock_spam e - timedelta_seconds SPAM_WINDOW_SEC)
            (window_of self (user_id (effective_user upd)))
          \<longrightarrow> window_of (state (on_group_message self upd e)) (user_id (effective_user upd)) =
                [clock_spam e])
       \<and> (sorted (window_of self (user_id (effective_user upd)) @ [clock_spam e])
          \<longrightarrow> list_all (\<lambda>t. clock_spam e - timedelta_seconds SPAM_WINDOW_SEC \<le> t)
                (window_of (state (on_group_message self upd e)) (user_id (effective_user upd)))
            \<and> sorted (window_of (state (on_group_message self upd e))
                (user_id (effective_user upd))))
       \<and> window_of (state (on_group_message self upd e)) (user_id (effective_user upd)) \<noteq> [])
   \<and> (\<forall>v. v \<noteq> user_id (effective_user upd) \<longrightarrow>
          msg_times (state (on_group_message self upd e)) v = msg_times self v
          \<and> window_of (state (on_group_message self upd e)) v = window_of self v)
   \<and> (\<not> (has_message upd \<and> user_id (effective_user upd) \<noteq> bot_id e) \<longrightarrow>
          msg_times (state (on_group_message self upd e)) = msg_times self)
   \<and> msg_times (state (cmd_reset_warnings self cmd ce)) = msg_times self"
proof -
  let ?uid = "user_id (effective_user upd)"
  let ?r = "on_group_message self upd e"
  have a: "(list_all (\<lambda>t. t < clock_spam e - timedelta_seconds SPAM_WINDOW_SEC) (window_of self ?uid)
          \<longrightarrow> window_of (state ?r) ?uid = [clock_spam e])
       \<and> (sorted (window_of self ?uid @ [clock_spam e])
          \<longrightarrow> list_all (\<lambda>t. clock_spam e - timedelta_seconds SPAM_WINDOW_SEC \<le> t)
                (window_of (state ?r) ?uid)
            \<and> sorted (window_of (state ?r) ?uid))
       \<and> window_of (state ?r) ?uid \<noteq> []"
    if h: "has_message upd" "?uid \<noteq> bot_id e"
    unfolding on_group_message_window [OF h]
    using popleft_while_all_stale [OF _ cutoff_le_now]
      popleft_while_sorted popleft_while_last [OF cutoff_le_now]
    by blast
  have b: "msg_times (state ?r) v = msg_times self v \<and> window_of (state ?r) v = window_of self v"
    if "v \<noteq> ?uid" for v
    using on_group_message_other_windows [OF that, of self e]
    by (simp add: window_of_def defaultdict_get_def)
  have c: "msg_times (state ?r) = msg_times self"
    if "\<not> (has_message upd \<and> ?uid \<noteq> bot_id e)"
    using that by (rule on_group_message_ignored_windows)
  have d: "msg_times (state (cmd_reset_warnings self cmd ce)) = msg_times self"
    using cmd_reset_warnings_frame [of self cmd ce] by simp
  from a b c d show ?thesis by blast
qed

text \<open>
  Five messages of one member at seconds 0 to 4 and one of another member at second 4 are
  followed by a message of the first at second 16. Her stored timestamps are all older
  than second 6 and are gone; the window left is the new timestamp alone. The window of
  the other member, just as old, is what it was.
\<close>

lemma state_after_group_messages:
  "state_after init_bot group_messages =
     \<lparr>msg_times = [7 \<mapsto> [0, 1000000, 2000000, 3000000, 4000000], 8 \<mapsto> [4000000]],
      warnings = Map.empty, last_reminder = Map.empty\<rparr>"
  by (simp add: group_messages_def five_messages_def run_defs group_defs)

theorem window_lazy_purge_witness:
  "has_message (message_from alice)
   \<and> user_id (effective_user (message_from alice)) \<noteq> bot_id (world_at 16 (Inr ''member''))
   \<and> list_all (\<lambda>t. t < clock_spam (world_at 16 (Inr ''member''))
          - timedelta_seconds SPAM_WINDOW_SEC) (window_of (state_after init_bot group_messages) 7)
   \<and> sorted (window_of (state_after init_bot group_messages) 7
        @ [clock_spam (world_at 16 (Inr ''member''))])
   \<and> window_of (state (on_group_message (state_after init_bot group_messages)
        (message_from alice) (world_at 16 (Inr ''member'')))) 7 = [16000000]
   \<and> window_of (state_after init_bot group_messages) 8 = [4000000]
   \<and> window_of (state (on_group_message (state_after init_bot group_messages)
        (message_from alice) (world_at 16 (Inr ''member'')))) 8 = [4000000]"
proof -
  let ?s = "state_after init_bot group_messages"
  have h: "has_message (message_from alice)
     \<and> user_id (effective_user (message_from alice)) \<noteq> bot_id (world_at 16 (Inr ''member''))"
    by (simp add: group_defs)
  have u: "user_id (effective_user (message_from alice)) = 7" by (simp add: group_defs)
  have c: "clock_spam (world_at 16 (Inr ''member'')) = 16000000"
    by (simp add: world_at_def timedelta_seconds_def)
  have a: "list_all (\<lambda>t. t < 16000000 - timedelta_seconds SPAM_WINDOW_SEC) (window_of ?s 7)
     \<and> sorted (window_of ?s 7 @ [16000000])"
    unfolding state_after_group_messages
    by (simp add: window_of_def defaultdict_get_def timedelta_seconds_def SPAM_WINDOW_SEC_def)
  have o: "window_of ?s 8 = [4000000]"
    unfolding state_after_group_messages by (simp add: window_of_def defaultdict_get_def)
  have n: "(8::int) \<noteq> 7" by simp
  show ?thesis
    using window_lazy_purge [of "message_from alice" "world_at 16 (Inr ''member'')" ?s] h a o n
    unfolding u c by simp
qed

text \<open>
  A message at second 0 leaves the window \<open>[0]\<close>, and nothing but a later message of
  the same user touches it: at second 11 its entry is older than the span and it is not
  empty. The message at second 11 leaves the window \<open>[11000000]\<close>, not empty either.
  And where the clock went back between two messages (seconds 100, then 95), the message
  at second 106 trims nothing, since the first entry is recent enough, and keeps the
  entry of second 95, older than the cutoff of second 96.
\<close>

theorem window_lazy_purge_counterexample:
  "window_of (state (on_group_message init_bot (message_from alice) (world_at 0 (Inr ''member'')))) 7
     = [0]
   \<and> (0::int) < timedelta_seconds 11 - timedelta_seconds SPAM_WINDOW_SEC
   \<and> window_of (state (on_group_message
        \<lparr>msg_times = [7 \<mapsto> [0]], warnings = Map.empty, last_reminder = Map.empty\<rparr>
        (message_from alice) (world_at 11 (Inr ''member'')))) 7 = [11000000]
   \<and> window_of (state (on_group_message
        \<lparr>msg_times = [7 \<mapsto> [100000000, 95000000]], warnings = Map.empty,
         last_reminder = Map.empty\<rparr>
        (message_from alice) (world_at 106 (Inr ''member'')))) 7 =
        [100000000, 95000000, 106000000]
   \<and> (95000000::int) < clock_spam (world_at 106 (Inr ''member''))
        - timedelta_seconds SPAM_WINDOW_SEC"
  by (simp add: is_user_in_channel_def world_at_def on_group_message_def Let_def
      message_from_def alice_def init_bot_def defaultdict_get_def timedelta_seconds_def
      SPAM_WINDOW_SEC_def SPAM_MAX_MSG_def window_of_def)

subsection \<open>C9: the bot's own messages\<close>

text \<open>
  C9. For every group message whose sender is the bot itself, the handler returns
  without a call and without a change: the window, warning count and reminder time of
  every user are what they were.
\<close>

theorem self_message_ignored:
  assumes "user_id (effective_user upd) = bot_id e"
  shows "on_group_message self upd e = \<lparr>state = self, trace = [], raised = None\<rparr>"
  using assms by (simp add: on_group_message_def)

theorem self_message_ignored_witness:
  "user_id (effective_user (message_from the_bot)) = bot_id (world_at 6 (Inr ''left''))
   \<and> on_group_message flagged_bot (message_from the_bot) (world_at 6 (Inr ''left'')) =
       \<lparr>state = flagged_bot, trace = [], raised = None\<rparr>"
proof -
  have h: "user_id (effective_user (message_from the_bot)) = bot_id (world_at 6 (Inr ''left''))"
    by (simp add: group_defs)
  show ?thesis
    using self_message_ignored [OF h, of flagged_bot] h by simp
qed

subsection \<open>C10: spam keeps the window\<close>

text \<open>
  C10. A spam classification neither clears nor shortens the window beyond the trimming:
  the window left is the trimmed one, it ends with the timestamp of the message just
  classified, and it is longer than \<^verbatim>\<open>SPAM_MAX_MSG\<close>. And whenever a message of a user
  is handled while that user's window holds more than \<^verbatim>\<open>SPAM_MAX_MSG\<close> entries that
  are not older than the new cutoff, that message is classified as spam as well and
  raises the warning count by one again.
\<close>

theorem spam_keeps_window:
  "(classified_spam (on_group_message self upd e) \<longrightarrow>
      window_of (state (on_group_message self upd e)) (user_id (effective_user upd)) =
        popleft_while (clock_spam e - timedelta_seconds SPAM_WINDOW_SEC)
          (window_of self (user_id (effective_user upd)) @ [clock_spam e])
      \<and> last (window_of (state (on_group_message self upd e)) (user_id (effective_user upd))) =
          clock_spam e
      \<and> clock_spam e \<in> set (window_of (state (on_group_message self upd e))
          (user_id (effective_user upd)))
      \<and> SPAM_MAX_MSG < int (length (window_of (state (on_group_message self upd e))
          (user_id (effective_user upd)))))
   \<and> (has_message upd2 \<and> user_id (effective_user upd2) \<noteq> bot_id e2
        \<and> SPAM_MAX_MSG < int (length (filter
              (\<lambda>t. clock_spam e2 - timedelta_seconds SPAM_WINDOW_SEC \<le> t)
              (window_of s (user_id (effective_user upd2)))))
      \<longrightarrow> classified_spam (on_group_message s upd2 e2)
        \<and> warning_count (state (on_group_message s upd2 e2)) (user_id (effective_user upd2)) =
            warning_count s (user_id (effective_user upd2)) + 1)"
proof -
  let ?uid = "user_id (effective_user upd)"
  let ?r = "on_group_message self upd e"
  have a: "window_of (state ?r) ?uid =
        popleft_while (clock_spam e - timedelta_seconds SPAM_WINDOW_SEC)
          (window_of self ?uid @ [clock_spam e])
      \<and> last (window_of (state ?r) ?uid) = clock_spam e
      \<and> clock_spam e \<in> set (window_of (state ?r) ?uid)
      \<and> SPAM_MAX_MSG < int (length (window_of (state ?r) ?uid))"
    if h: "classified_spam ?r"
  proof -
    from h have g: "has_message upd" "?uid \<noteq> bot_id e"
      and n: "SPAM_MAX_MSG < int (length (popleft_while (clock_spam e - timedelta_seconds SPAM_WINDOW_SEC)
          (window_of self ?uid @ [clock_spam e])))"
      by (simp_all add: classified_spam_iff)
    note w = on_group_message_window [OF g]
    note l = popleft_while_last [OF cutoff_le_now, of "clock_spam e" "window_of self ?uid"]
    from l have "clock_spam e \<in> set (popleft_while (clock_spam e - timedelta_seconds SPAM_WINDOW_SEC)
          (window_of self ?uid @ [clock_spam e]))"
      by (metis last_in_set)
    with w l n show ?thesis by simp
  qed
  have b: "classified_spam (on_group_message s upd2 e2)
        \<and> warning_count (state (on_group_message s upd2 e2)) (user_id (effective_user upd2)) =
            warning_count s (user_id (effective_user upd2)) + 1"
    if h: "has_message upd2" "user_id (effective_user upd2) \<noteq> bot_id e2"
        "SPAM_MAX_MSG < int (length (filter
              (\<lambda>t. clock_spam e2 - timedelta_seconds SPAM_WINDOW_SEC \<le> t)
              (window_of s (user_id (effective_user upd2)))))"
  proof -
    let ?c = "clock_spam e2 - timedelta_seconds SPAM_WINDOW_SEC"
    let ?w = "window_of s (user_id (effective_user upd2))"
    have "length (filter (\<lambda>t. ?c \<le> t) ?w) \<le> length (filter (\<lambda>t. ?c \<le> t) (?w @ [clock_spam e2]))"
      by simp
    also have "\<dots> \<le> length (popleft_while ?c (?w @ [clock_spam e2]))"
      by (rule popleft_while_length_filter)
    finally have "SPAM_MAX_MSG < int (length (popleft_while ?c (?w @ [clock_spam e2])))"
      using h(3) by linarith
    with h(1,2) have sp: "classified_spam (on_group_message s upd2 e2)"
      by (simp add: classified_spam_iff)
    show ?thesis
      using sp by (subst on_group_message_spam [OF sp])
        (simp add: warning_count_def defaultdict_get_def)
  qed
  from a b show ?thesis by blast
qed

text \<open>
  After a warning has gone out the handler sleeps for \<^verbatim>\<open>WARNING_AUTO_DELETE_SEC\<close>
  before it returns, longer than the window, so the next message of the user finds the
  stored timestamps too old. The case of the second half arises when sending the warning
  raises, and the handler returns at once. Five messages of a member at seconds 0 to 4
  are followed by a sixth at second 5: it is spam, the send of its warning raises, and
  its timestamp stays in the window. The seventh, at second 6, finds six stored
  timestamps inside the window, is spam as well and takes the count from 1 to 2.
\<close>

theorem spam_keeps_window_witness:
  "classified_spam (on_group_message (state_after init_bot five_messages)
        (message_from alice) (send_fails_at 5 (Inr ''member'')))
   \<and> trace (on_group_message (state_after init_bot five_messages)
        (message_from alice) (send_fails_at 5 (Inr ''member''))) =
       [DeleteMessage, SendMessage (- 100) (SpamWarningText ''Alice'' 1)]
   \<and> window_of (state (on_group_message (state_after init_bot five_messages)
        (message_from alice) (send_fails_at 5 (Inr ''member'')))) 7 =
       [0, 1000000, 2000000, 3000000, 4000000, 5000000]
   \<and> has_message (message_from alice)
   \<and> user_id (effective_user (message_from alice)) \<noteq> bot_id (world_at 6 (Inr ''member''))
   \<and> length (filter (\<lambda>t. clock_spam (world_at 6 (Inr ''member''))
          - timedelta_seconds SPAM_WINDOW_SEC \<le> t)
        (window_of (state (on_group_message (state_after init_bot five_messages)
          (message_from alice) (send_fails_at 5 (Inr ''member'')))) 7)) = 6
   \<and> classified_spam (on_group_message
        (state (on_group_message (state_after init_bot five_messages)
          (message_from alice) (send_fails_at 5 (Inr ''member''))))
        (message_from alice) (world_at 6 (Inr ''member'')))
   \<and> warning_count (state (on_group_message
        (state (on_group_message (state_after init_bot five_messages)
          (message_from alice) (send_fails_at 5 (Inr ''member''))))
        (message_from alice) (world_at 6 (Inr ''member'')))) 7 = 2"
proof -
  let ?r = "on_group_message (state_after init_bot five_messages)
        (message_from alice) (send_fails_at 5 (Inr ''member''))"
  let ?r2 = "on_group_message (state ?r) (message_from alice) (world_at 6 (Inr ''member''))"
  have a: "classified_spam ?r"
    unfolding state_after_five_messages
    by (simp add: classified_spam_def run_defs group_defs)
  have tr: "trace ?r = [DeleteMessage, SendMessage (- 100) (SpamWarningText ''Alice'' 1)]"
    unfolding state_after_five_messages
    by (simp add: run_defs group_defs)
  have g: "has_message (message_from alice)"
    "user_id (effective_user (message_from alice)) \<noteq> bot_id (world_at 6 (Inr ''member''))"
    by (simp_all add: group_defs)
  have u: "user_id (effective_user (message_from alice)) = 7" by (simp add: group_defs)
  have w: "window_of (state ?r) 7 = [0, 1000000, 2000000, 3000000, 4000000, 5000000]"
    unfolding state_after_five_messages
    by (simp add: window_of_def run_defs group_defs)
  have c: "clock_spam (world_at 6 (Inr ''member'')) - timedelta_seconds SPAM_WINDOW_SEC = - 4000000"
    by (simp add: world_at_def timedelta_seconds_def SPAM_WINDOW_SEC_def)
  have f: "length (filter (\<lambda>t. clock_spam (world_at 6 (Inr ''member''))
          - timedelta_seconds SPAM_WINDOW_SEC \<le> t) (window_of (state ?r) 7)) = 6"
    unfolding c w by simp
  have k: "warning_count (state ?r) 7 = 1"
    unfolding state_after_five_messages
    by (simp add: warning_count_def run_defs group_defs)
  have hyp: "has_message (message_from alice)
     \<and> user_id (effective_user (message_from alice)) \<noteq> bot_id (world_at 6 (Inr ''member''))
     \<and> SPAM_MAX_MSG < int (length (filter
          (\<lambda>t. clock_spam (world_at 6 (Inr ''member'')) - timedelta_seconds SPAM_WINDOW_SEC \<le> t)
          (window_of (state ?r) (user_id (effective_user (message_from alice))))))"
    using g unfolding u f by (simp add: SPAM_MAX_MSG_def)
  have "classified_spam ?r2
     \<and> warning_count (state ?r2) (user_id (effective_user (message_from alice))) =
         warning_count (state ?r) (user_id (effective_user (message_from alice))) + 1"
    using spam_keeps_window [of "state_after init_bot five_messages" "message_from alice"
        "send_fails_at 5 (Inr ''member'')" "message_from alice" "world_at 6 (Inr ''member'')"
        "state ?r"] hyp
    by blast
  then have r2: "classified_spam ?r2 \<and> warning_count (state ?r2) 7 = 2"
    unfolding u k by simp
  from a tr w g f r2 show ?thesis by simp
qed

end
